theory Spec2Isabelle
  imports Main "HOL-Library.Sublist"
begin

section \<open>Python primitives used by the extraction scripts\<close>

text \<open>
  A Python \<open>str\<close> is modelled as a HOL \<open>string\<close>, one \<open>char\<close> per code point, so the
  model covers the code points 0 to 255. \<open>str.strip()\<close> removes the characters for which
  \<open>str.isspace()\<close> holds (in that range: 9 to 13, 28 to 32, 133 and 160) from both ends;
  \<open>str.lower()\<close> maps \<open>A\<close> to \<open>Z\<close> and the capital letters 192 to 222 (but not the
  multiplication sign 215) to the code point 32 above.
\<close>

definition py_isspace :: "char \<Rightarrow> bool" where
  "py_isspace c =
     (let n = (of_char c :: nat)
      in (9 \<le> n \<and> n \<le> 13) \<or> (28 \<le> n \<and> n \<le> 32) \<or> n = 133 \<or> n = 160)"

definition lstrip :: "string \<Rightarrow> string" where
  "lstrip s = dropWhile py_isspace s"

definition rstrip :: "string \<Rightarrow> string" where
  "rstrip s = rev (dropWhile py_isspace (rev s))"

definition strip :: "string \<Rightarrow> string" where
  "strip s = rstrip (lstrip s)"

definition lower_char :: "char \<Rightarrow> char" where
  "lower_char c =
     (let n = (of_char c :: nat)
      in if (65 \<le> n \<and> n \<le> 90) \<or> (192 \<le> n \<and> n \<le> 222 \<and> n \<noteq> 215)
         then char_of (n + 32) else c)"

definition lower :: "string \<Rightarrow> string" where
  "lower s = map lower_char s"

text \<open>\<open>s.startswith(p)\<close>.\<close>

fun startswith :: "string \<Rightarrow> string \<Rightarrow> bool" where
  "startswith s [] = True"
| "startswith [] (p # ps) = False"
| "startswith (c # cs) (p # ps) = (c = p \<and> startswith cs ps)"

text \<open>\<open>needle in haystack\<close> on strings: the needle occurs as a contiguous run.\<close>

fun py_in :: "string \<Rightarrow> string \<Rightarrow> bool" where
  "py_in needle [] = (needle = [])"
| "py_in needle (c # cs) = (startswith (c # cs) needle \<or> py_in needle cs)"

text \<open>
  \<open>s.split(sep)\<close> for a separator of one character: the pieces between the separators,
  empty pieces included, so the result has one more element than \<open>s\<close> has separators.
\<close>

fun split_from :: "char \<Rightarrow> string \<Rightarrow> string \<Rightarrow> string list" where
  "split_from sep cur [] = [cur]"
| "split_from sep cur (c # cs) =
     (if c = sep then cur # split_from sep [] cs else split_from sep (cur @ [c]) cs)"

definition py_split :: "string \<Rightarrow> char \<Rightarrow> string list" where
  "py_split s sep = split_from sep [] s"

text \<open>\<open>sep.join(xs)\<close>.\<close>

fun join :: "string \<Rightarrow> string list \<Rightarrow> string" where
  "join sep [] = []"
| "join sep [x] = x"
| "join sep (x # y # ys) = x @ sep @ join sep (y # ys)"

text \<open>\<open>str(n)\<close> for an integer: its decimal digits, with a minus sign when negative.\<close>

definition digit_char :: "nat \<Rightarrow> char" where
  "digit_char d = char_of (48 + d)"

fun str_nat :: "nat \<Rightarrow> string" where
  "str_nat n = (if n < 10 then [digit_char n] else str_nat (n div 10) @ [digit_char (n mod 10)])"

declare str_nat.simps [simp del]

definition str_int :: "int \<Rightarrow> string" where
  "str_int i = (if i < 0 then CHR ''-'' # str_nat (nat (- i)) else str_nat (nat i))"

text \<open>
  The value of a spreadsheet cell as openpyxl hands it over: nothing, a text, a whole
  number or a truth value. (Floating-point numbers and dates, whose \<open>str\<close> is a matter of
  number formatting, are left out.) \<open>truthy\<close> is Python's truth test of a value, \<open>py_str\<close>
  is \<open>str(value)\<close>.
\<close>

datatype cell_value = NoneV | StrV string | IntV int | BoolV bool

fun truthy :: "cell_value \<Rightarrow> bool" where
  "truthy NoneV = False"
| "truthy (StrV s) = (s \<noteq> [])"
| "truthy (IntV i) = (i \<noteq> 0)"
| "truthy (BoolV b) = b"

fun py_str :: "cell_value \<Rightarrow> string" where
  "py_str NoneV = ''None''"
| "py_str (StrV s) = s"
| "py_str (IntV i) = str_int i"
| "py_str (BoolV b) = (if b then ''True'' else ''False'')"

text \<open>
  A worksheet: its \<open>max_row\<close>, its \<open>max_column\<close> and the value of the cell at a row and a
  column, both counted from 1.
\<close>

record sheet =
  max_row :: nat
  max_column :: nat
  cell :: "nat \<Rightarrow> nat \<Rightarrow> cell_value"

text \<open>A sheet given by its rows of texts; a cell outside the rows holds nothing.\<close>

definition sheet_of_rows :: "string list list \<Rightarrow> sheet" where
  "sheet_of_rows rws =
     \<lparr> max_row = length rws,
       max_column = foldr max (map length rws) 0,
       cell = (\<lambda>r c. if 1 \<le> r \<and> r \<le> length rws
                      then (let rw = rws ! (r - 1)
                            in if 1 \<le> c \<and> c \<le> length rw then StrV (rw ! (c - 1)) else NoneV)
                      else NoneV) \<rparr>"


section \<open>Rule-Identifier Extractor (\<open>scripts/extract_compliance_rules.py\<close>)\<close>

datatype category =
  BACTERIOLOGICAL | CHEMICAL | PROTOZOA | RADIOLOGICAL
  | MONITORING | VERIFICATION | OPERATIONAL | WATER_QUALITY

record rule =
  ruleId :: string
  category :: category
  parameter :: "string option"
  description :: string
  isActive :: bool
  applicability :: string
  effectiveDate :: string

text \<open>
  \<open>parameter\<close> starts as \<open>None\<close> and is set only when the identifier has a hyphen and
  splitting at the hyphens gives exactly two parts.
\<close>

definition parse_parameter :: "string \<Rightarrow> string option" where
  "parse_parameter rule_id =
     (if py_in ''-'' rule_id
      then (let parts = py_split rule_id (CHR ''-'')
            in if length parts = 2 then Some (lower (parts ! 1)) else None)
      else None)"

definition categorize :: "string \<Rightarrow> category" where
  "categorize rule_id =
     (if startswith rule_id ''T1'' then BACTERIOLOGICAL
      else if startswith rule_id ''T2'' then CHEMICAL
      else if startswith rule_id ''T3'' then PROTOZOA
      else if startswith rule_id ''T4'' then RADIOLOGICAL
      else if startswith rule_id ''M'' then MONITORING
      else if startswith rule_id ''V'' then VERIFICATION
      else if startswith rule_id ''O'' then OPERATIONAL
      else WATER_QUALITY)"

definition make_rule :: "string \<Rightarrow> rule" where
  "make_rule rule_id =
     \<lparr> ruleId = rule_id,
       category = categorize rule_id,
       parameter = parse_parameter rule_id,
       description = ''Compliance rule '' @ rule_id,
       isActive = True,
       applicability = ''All supply sizes'',
       effectiveDate = ''2024-01-01T00:00:00.000Z'' \<rparr>"

text \<open>
  One pass of the loop over column A. The state is the list \<open>rules\<close> and the set
  \<open>rule_ids_seen\<close>. The guard is \<open>cell_value and str(cell_value).strip()\<close>.
\<close>

definition extract_step :: "rule list \<times> string set \<Rightarrow> cell_value \<Rightarrow> rule list \<times> string set" where
  "extract_step st cell_value =
     (case st of (rules, rule_ids_seen) \<Rightarrow>
        if truthy cell_value \<and> strip (py_str cell_value) \<noteq> []
        then (let rule_id = strip (py_str cell_value)
              in if rule_id \<in> rule_ids_seen then (rules, rule_ids_seen)
                 else (rules @ [make_rule rule_id], insert rule_id rule_ids_seen))
        else (rules, rule_ids_seen))"

definition rules_of_column :: "cell_value list \<Rightarrow> rule list" where
  "rules_of_column col = fst (foldl extract_step ([], {}) col)"

text \<open>The cells of column A, rows 1 to \<open>max_row\<close>, are what the loop reads.\<close>

definition column_A :: "sheet \<Rightarrow> cell_value list" where
  "column_A sh = map (\<lambda>row_idx. cell sh row_idx 1) [1..<max_row sh + 1]"

definition extract_rules :: "sheet \<Rightarrow> rule list" where
  "extract_rules sh = rules_of_column (column_A sh)"


section \<open>Sheet-Header Locator (\<open>scripts/analyze_dwqar_excel_template.py\<close>)\<close>

text \<open>\<open>str(cell.value) if cell.value is not None else ""\<close>.\<close>

definition cell_text :: "cell_value \<Rightarrow> string" where
  "cell_text v = (if v = NoneV then [] else py_str v)"

definition row_values :: "sheet \<Rightarrow> nat \<Rightarrow> string list" where
  "row_values sh row_idx =
     map (\<lambda>col_idx. cell_text (cell sh row_idx col_idx)) [1..<max_column sh + 1]"

definition non_empty :: "string list \<Rightarrow> string list" where
  "non_empty vals = filter (\<lambda>v. strip v \<noteq> []) vals"

definition header_keywords :: "string list" where
  "header_keywords = [''supply'', ''name'', ''code'', ''date'', ''water'', ''compliance'']"

definition has_keyword :: "string list \<Rightarrow> bool" where
  "has_keyword vals =
     list_ex (\<lambda>keyword. py_in keyword (lower (join '' '' vals))) header_keywords"

text \<open>\<open>not data_start_row\<close>: true of \<open>None\<close> and of the number 0.\<close>

definition not_set :: "nat option \<Rightarrow> bool" where
  "not_set d = (case d of None \<Rightarrow> True | Some n \<Rightarrow> n = 0)"

text \<open>
  One pass of the loop over the first rows. The state is the pair of \<open>headers\<close> and
  \<open>data_start_row\<close>.
\<close>

definition scan_row :: "sheet \<Rightarrow> string list \<times> nat option \<Rightarrow> nat \<Rightarrow> string list \<times> nat option" where
  "scan_row sh st row_idx =
     (let vals = row_values sh row_idx
      in if length (non_empty vals) > 3
         then (if not_set (snd st) \<and> has_keyword (non_empty vals)
               then (vals, Some (row_idx + 1)) else st)
         else st)"

definition scan_rows :: "sheet \<Rightarrow> nat list" where
  "scan_rows sh = [1..<min 21 (max_row sh + 1)]"

definition scan_headers :: "sheet \<Rightarrow> string list \<times> nat option" where
  "scan_headers sh = foldl (scan_row sh) ([], None) (scan_rows sh)"

record header_detail =
  column_index :: nat
  header_name :: string
  database_mapping :: string
  required :: string
  data_type :: string

definition clean_headers :: "string list \<Rightarrow> string list" where
  "clean_headers hdrs = map strip (filter (\<lambda>h. strip h \<noteq> []) hdrs)"

definition header_entry :: "nat \<times> string \<Rightarrow> header_detail" where
  "header_entry p =
     (case p of (idx, header) \<Rightarrow>
        \<lparr> column_index = idx,
          header_name = header,
          database_mapping = ''TO_BE_MAPPED_'' @ str_nat idx,
          required = ''UNKNOWN'',
          data_type = ''UNKNOWN'' \<rparr>)"

text \<open>\<open>enumerate(xs, 1)\<close> pairs the elements with 1, 2, ...\<close>

definition enumerate1 :: "'a list \<Rightarrow> (nat \<times> 'a) list" where
  "enumerate1 xs = zip [1..<length xs + 1] xs"

definition header_details_of :: "string list \<Rightarrow> header_detail list" where
  "header_details_of hdrs = map header_entry (enumerate1 (take 30 (clean_headers hdrs)))"

record sheet_analysis =
  sheet_name :: string
  dimension_rows :: nat
  dimension_columns :: nat
  header_row :: "nat option"
  data_start_row :: "nat option"
  headers :: "header_detail list"
  analysis_notes :: "string list"

definition sheet_notes :: "string \<Rightarrow> string list" where
  "sheet_notes name =
     (if py_in ''supply'' (lower name) then [''Contains water supply information''] else [])
     @ (if py_in ''test'' (lower name) \<or> py_in ''quality'' (lower name)
        then [''Contains water quality test data''] else [])
     @ (if py_in ''compliance'' (lower name) then [''Contains compliance reporting data''] else [])"

definition analyze_sheet :: "string \<Rightarrow> sheet \<Rightarrow> sheet_analysis" where
  "analyze_sheet name sh =
     (case scan_headers sh of (hdrs, dsr) \<Rightarrow>
        \<lparr> sheet_name = name,
          dimension_rows = max_row sh,
          dimension_columns = max_column sh,
          header_row = (if hdrs \<noteq> [] then Some 1 else None),
          data_start_row = dsr,
          headers = (if hdrs \<noteq> [] then header_details_of hdrs else []),
          analysis_notes = sheet_notes name \<rparr>)"


section \<open>Keyword-Bucket Scanner (\<open>scripts/analyze_compliance_strategy.py\<close>)\<close>

text \<open>
  The dictionary \<open>priorities\<close> is an association list in insertion order. Its five keys
  are literals of the source and are never added to or removed, so the lookups of the
  source cannot fail; \<open>dict_append\<close> is \<open>priorities[key].append(v)\<close>.
\<close>

type_synonym priorities = "(string \<times> string list) list"

definition initial_priorities :: priorities where
  "initial_priorities =
     [(''high_risk_areas'', []), (''enforcement_focus'', []), (''supply_categories'', []),
      (''key_metrics'', []), (''risk_factors'', [])]"

definition dict_append :: "string \<Rightarrow> string \<Rightarrow> priorities \<Rightarrow> priorities" where
  "dict_append key v d = map (\<lambda>(k, vs). if k = key then (k, vs @ [v]) else (k, vs)) d"

definition any_keyword :: "string list \<Rightarrow> string \<Rightarrow> bool" where
  "any_keyword keywords line_lower = list_ex (\<lambda>keyword. py_in keyword line_lower) keywords"

definition scan_line :: "priorities \<Rightarrow> string \<Rightarrow> priorities" where
  "scan_line p line =
     (let line_lower = lower line;
          p1 = (if any_keyword [''high risk'', ''critical'', ''priority''] line_lower
                then (if length (strip line) > 20 \<and> length (strip line) < 200
                      then dict_append ''high_risk_areas'' (strip line) p else p)
                else p);
          p2 = (if any_keyword [''category'', ''tier'', ''supplier''] line_lower
                then (if length (strip line) > 15 \<and> length (strip line) < 150
                      then dict_append ''supply_categories'' (strip line) p1 else p1)
                else p1)
      in (if any_keyword [''risk factor'', ''risk level''] line_lower
          then (if length (strip line) > 15 \<and> length (strip line) < 150
                then dict_append ''risk_factors'' (strip line) p2 else p2)
          else p2))"

text \<open>
  \<open>list(set(xs))\<close> lists the distinct elements of \<open>xs\<close> in the iteration order of a hash
  set, which Python leaves open and which for strings changes with the hash seed of the
  process. The scanner therefore takes that listing as a parameter \<open>list_set\<close>; every
  admissible one satisfies \<open>set_listing\<close>.
\<close>

definition set_listing :: "(string list \<Rightarrow> string list) \<Rightarrow> bool" where
  "set_listing list_set = (\<forall>xs. distinct (list_set xs) \<and> set (list_set xs) = set xs)"

definition collected :: "string \<Rightarrow> priorities" where
  "collected text = foldl scan_line initial_priorities (py_split text (CHR 0x0A))"

definition extract_priorities :: "(string list \<Rightarrow> string list) \<Rightarrow> string \<Rightarrow> priorities" where
  "extract_priorities list_set text =
     map (\<lambda>(key, vs). (key, take 10 (list_set vs))) (collected text)"


section \<open>Notions used to state the properties\<close>

text \<open>
  The identifiers of a column are the values \<open>rule_id\<close> takes in the loop: the trimmed
  texts of the cells that pass the guard. \<open>nonblank_texts\<close> are the trimmed texts of all
  cells that are not blank, whatever the truth value of the cell. \<open>first_index xs a\<close> is
  the position at which \<open>a\<close> first occurs in \<open>xs\<close>.
\<close>

definition identifiers :: "cell_value list \<Rightarrow> string list" where
  "identifiers col =
     map (\<lambda>v. strip (py_str v)) (filter (\<lambda>v. truthy v \<and> strip (py_str v) \<noteq> []) col)"

definition nonblank_texts :: "cell_value list \<Rightarrow> string list" where
  "nonblank_texts col = filter (\<lambda>i. i \<noteq> []) (map (\<lambda>v. strip (cell_text v)) col)"

definition first_index :: "'a list \<Rightarrow> 'a \<Rightarrow> nat" where
  "first_index xs a = length (takeWhile (\<lambda>x. x \<noteq> a) xs)"

text \<open>
  A row qualifies as the header when it has more than 3 cells that are not blank and the
  texts of those cells, joined by blanks and lower-cased, contain one of the domain
  keywords.
\<close>

definition domain_keywords :: "string list" where
  "domain_keywords = [''supply'', ''name'', ''code'', ''date'', ''water'', ''compliance'']"

definition qualifies :: "sheet \<Rightarrow> nat \<Rightarrow> bool" where
  "qualifies sh r =
     (3 < length (filter (\<lambda>v. strip v \<noteq> []) (row_values sh r))
      \<and> (\<exists>k\<in>set domain_keywords.
            sublist k (lower (join '' '' (filter (\<lambda>v. strip v \<noteq> []) (row_values sh r))))))"

text \<open>
  The sheet of the end-to-end scenario; a sheet whose first row has five generic cells
  and whose second row has four cells, one of them \<open>Water Supply Name\<close>; and a header
  row of 31 cells.
\<close>

definition example_sheet :: sheet where
  "example_sheet =
     sheet_of_rows [[''a'', ''b'', ''c''],
                    [''Water'', ''Supply'', ''Name'', ''Code'', ''Date''],
                    [''1'', ''X'', ''Y'', ''2020-01-01'']]"

definition regression_sheet :: sheet where
  "regression_sheet =
     sheet_of_rows [[''alpha'', ''beta'', ''gamma'', ''delta'', ''epsilon''],
                    [''Water Supply Name'', ''x'', ''y'', ''z''],
                    [''Code'', ''Date'', ''Water'', ''Name'']]"

definition wide_header_row :: "string list" where
  "wide_header_row =
     [''Name'', ''c02'', ''c03'', ''c04'', ''c05'', ''c06'', ''c07'', ''c08'', ''c09'', ''c10'',
      ''c11'', ''c12'', ''c13'', ''c14'', ''c15'', ''c16'', ''c17'', ''c18'', ''c19'', ''c20'',
      ''c21'', ''c22'', ''c23'', ''c24'', ''c25'', ''c26'', ''c27'', ''c28'', ''c29'', ''c30'',
      ''c31'']"

text \<open>
  A line belongs to a bucket with the given keywords and bounds when its lower-cased form
  contains one of the keywords and the length of the trimmed line lies strictly between
  the bounds.
\<close>

definition bucket_line :: "string list \<Rightarrow> nat \<Rightarrow> nat \<Rightarrow> string \<Rightarrow> bool" where
  "bucket_line keywords lo hi line =
     ((\<exists>k\<in>set keywords. sublist k (lower line))
      \<and> lo < length (strip line) \<and> length (strip line) < hi)"

text \<open>
  Two admissible listings of a set: the distinct elements in the order of their last
  occurrence, and the same in reverse. A text of sixteen matching lines, fifteen of them
  distinct after trimming, and a text of two matching lines.
\<close>

definition listing_forward :: "string list \<Rightarrow> string list" where
  "listing_forward xs = remdups xs"

definition listing_backward :: "string list \<Rightarrow> string list" where
  "listing_backward xs = rev (remdups xs)"

definition fifteen_lines :: "string list" where
  "fifteen_lines =
     [''critical finding number 01'', ''critical finding number 02'', ''critical finding number 03'',
      ''critical finding number 04'', ''critical finding number 05'', ''critical finding number 06'',
      ''critical finding number 07'', ''critical finding number 08'', ''critical finding number 09'',
      ''critical finding number 10'', ''critical finding number 11'', ''critical finding number 12'',
      ''critical finding number 13'', ''critical finding number 14'', ''critical finding number 15'']"

definition fifteen_text :: string where
  "fifteen_text = join [CHR 0x0A] (fifteen_lines @ [''  critical finding number 03  ''])"

definition two_line_text :: string where
  "two_line_text = join [CHR 0x0A] [''critical issue in zone A'', ''critical issue in zone B'']"


section \<open>Facts about the primitives\<close>

lemma startswith_prefix: "startswith s p = prefix p s"
  by (induction s p rule: startswith.induct) auto

lemma py_in_sublist: "py_in needle hay = sublist needle hay"
  by (induction hay) (simp_all add: startswith_prefix sublist_Cons_right)

lemma py_in_single: "py_in [x] s = (x \<in> set s)"
  by (induction s) auto

lemma split_from_none: "sep \<notin> set s \<Longrightarrow> split_from sep cur s = [cur @ s]"
  by (induction s arbitrary: cur) auto

lemma length_split_from: "length (split_from sep cur s) = Suc (count_list s sep)"
  by (induction s arbitrary: cur) auto

lemma split_from_one:
  "count_list s sep = Suc 0 \<Longrightarrow>
     split_from sep cur s ! Suc 0 = tl (dropWhile (\<lambda>c. c \<noteq> sep) s)"
proof (induction s arbitrary: cur)
  case Nil
  then show ?case by simp
next
  case (Cons c cs)
  show ?case
  proof (cases "c = sep")
    case True
    with Cons.prems have "sep \<notin> set cs"
      by (simp add: count_list_0_iff)
    with True show ?thesis
      by (simp add: split_from_none)
  next
    case False
    with Cons show ?thesis by simp
  qed
qed

section \<open>Rule-Identifier Extractor: the loop and its records\<close>

lemma parse_parameter_eq:
  "parse_parameter rule_id =
     (if count_list rule_id (CHR ''-'') = 1
      then Some (lower (tl (dropWhile (\<lambda>c. c \<noteq> CHR ''-'') rule_id))) else None)"
proof (cases "CHR ''-'' \<in> set rule_id")
  case True
  then show ?thesis
    by (simp add: parse_parameter_def py_in_single py_split_def length_split_from split_from_one)
next
  case False
  then have "count_list rule_id (CHR ''-'') = 0"
    by (simp add: count_list_0_iff)
  with False show ?thesis
    by (simp add: parse_parameter_def py_in_single)
qed

lemma categorize_eq:
  "categorize rule_id =
     (if prefix ''T1'' rule_id then BACTERIOLOGICAL
      else if prefix ''T2'' rule_id then CHEMICAL
      else if prefix ''T3'' rule_id then PROTOZOA
      else if prefix ''T4'' rule_id then RADIOLOGICAL
      else if prefix ''M'' rule_id then MONITORING
      else if prefix ''V'' rule_id then VERIFICATION
      else if prefix ''O'' rule_id then OPERATIONAL
      else WATER_QUALITY)"
  by (simp only: categorize_def startswith_prefix)

lemma extract_step_snoc:
  "foldl extract_step st (col @ [v]) = extract_step (foldl extract_step st col) v"
  by simp

lemma identifiers_snoc:
  "identifiers (col @ [v]) =
     (if truthy v \<and> strip (py_str v) \<noteq> [] then identifiers col @ [strip (py_str v)]
      else identifiers col)"
  by (simp add: identifiers_def)

lemma extract_fold:
  "foldl extract_step ([], {}) col =
     (map make_rule (rev (remdups (rev (identifiers col)))), set (identifiers col))"
proof (induction col rule: rev_induct)
  case Nil
  then show ?case by (simp add: identifiers_def)
next
  case (snoc v col)
  have "foldl extract_step ([], {}) (col @ [v]) =
          extract_step (map make_rule (rev (remdups (rev (identifiers col)))),
                        set (identifiers col)) v"
    by (simp add: snoc.IH)
  also have "\<dots> = (map make_rule (rev (remdups (rev (identifiers (col @ [v]))))),
                    set (identifiers (col @ [v])))"
    by (auto simp add: extract_step_def identifiers_snoc Let_def)
  finally show ?case .
qed

lemma rules_of_column_eq:
  "rules_of_column col = map make_rule (rev (remdups (rev (identifiers col))))"
  by (simp add: rules_of_column_def extract_fold)

lemma ruleId_make_rule: "ruleId (make_rule i) = i"
  by (simp add: make_rule_def)

lemma ruleIds_of_column:
  "map ruleId (rules_of_column col) = rev (remdups (rev (identifiers col)))"
  by (simp add: rules_of_column_eq ruleId_make_rule o_def)

lemma first_index_append:
  "a \<in> set xs \<Longrightarrow> first_index (xs @ ys) a = first_index xs a"
  by (simp add: first_index_def takeWhile_append1) 

lemma first_index_less: "a \<in> set xs \<Longrightarrow> first_index xs a < length xs"
  unfolding first_index_def by (induction xs) auto

lemma first_index_new: "a \<notin> set xs \<Longrightarrow> first_index (xs @ [a]) a = length xs"
  unfolding first_index_def by (induction xs) auto

lemma first_seen_sorted:
  "sorted_wrt (\<lambda>a b. first_index xs a < first_index xs b) (rev (remdups (rev xs)))"
proof (induction xs rule: rev_induct)
  case Nil
  then show ?case by simp
next
  case (snoc x xs)
  let ?L = "rev (remdups (rev xs))"
  have mem: "set ?L = set xs" by simp
  have same: "sorted_wrt (\<lambda>a b. first_index (xs @ [x]) a < first_index (xs @ [x]) b) ?L"
    using snoc.IH
    by (rule sorted_wrt_mono_rel [rotated]) (simp add: first_index_append)
  show ?case
  proof (cases "x \<in> set xs")
    case True
    with same show ?thesis by simp
  next
    case False
    have "\<forall>a\<in>set ?L. first_index (xs @ [x]) a < first_index (xs @ [x]) x"
      using False by (simp add: first_index_append first_index_new first_index_less)
    with same False show ?thesis
      by (simp add: sorted_wrt_append)
  qed
qed


lemma count_of_key:
  "distinct (map f xs) \<Longrightarrow>
     length (filter (\<lambda>r. f r = i) xs) = (if i \<in> f ` set xs then 1 else 0)"
  by (induction xs) auto

lemma identifiers_drop_blank:
  "\<not> truthy v \<or> strip (py_str v) = [] \<Longrightarrow> identifiers (xs @ v # ys) = identifiers (xs @ ys)"
  by (auto simp add: identifiers_def)

lemma identifiers_text_cells:
  "\<forall>v\<in>set col. v = NoneV \<or> (\<exists>s. v = StrV s) \<Longrightarrow> identifiers col = nonblank_texts col"
proof (induction col)
  case Nil
  then show ?case by (simp add: identifiers_def nonblank_texts_def)
next
  case (Cons v col)
  then have IH: "identifiers col = nonblank_texts col" by simp
  from Cons.prems have "v = NoneV \<or> (\<exists>s. v = StrV s)" by simp
  then show ?case
  proof
    assume "v = NoneV"
    with IH show ?thesis
      by (simp add: identifiers_def nonblank_texts_def cell_text_def strip_def rstrip_def lstrip_def)
  next
    assume "\<exists>s. v = StrV s"
    then obtain s where v: "v = StrV s" ..
    have "s = [] \<Longrightarrow> strip s = []"
      by (simp add: strip_def rstrip_def lstrip_def)
    with IH v show ?thesis
      by (auto simp add: identifiers_def nonblank_texts_def cell_text_def)
  qed
qed

subsection \<open>Category and parameter of an identifier\<close>

lemma example_rules:
  "map (\<lambda>r. (ruleId r, category r, parameter r))
       (rules_of_column [StrV ''T1.8-ecol'', StrV ''T3.2-Crypto'', StrV ''X9.1''])
   = [(''T1.8-ecol'', BACTERIOLOGICAL, Some ''ecol''),
      (''T3.2-Crypto'', PROTOZOA, Some ''crypto''),
      (''X9.1'', WATER_QUALITY, None)]"
  by code_simp

lemma single_rule:
  "rule_id \<noteq> [] \<Longrightarrow> strip rule_id = rule_id \<Longrightarrow> rules_of_column [StrV rule_id] = [make_rule rule_id]"
  by (simp add: rules_of_column_eq identifiers_def)

text \<open>
  Claim C3. For every identifier the category is decided by the first prefix that
  matches, in the order T1, T2, T3, T4, M, V, O, and is \<open>WATER_QUALITY\<close> when none
  matches. The parameter is the lower-cased text after the hyphen exactly when the
  identifier has exactly one hyphen, and is absent otherwise. A non-blank trimmed
  identifier alone in the column yields one record carrying that category and parameter.
  The identifiers \<open>T1.8-ecol\<close>, \<open>T3.2-Crypto\<close> and \<open>X9.1\<close> give
  \<open>BACTERIOLOGICAL\<close> with \<open>ecol\<close>, \<open>PROTOZOA\<close> with \<open>crypto\<close>, and
  \<open>WATER_QUALITY\<close> with no parameter.
\<close>

theorem C3_category_and_parameter:
  "categorize rule_id =
     (if prefix ''T1'' rule_id then BACTERIOLOGICAL
      else if prefix ''T2'' rule_id then CHEMICAL
      else if prefix ''T3'' rule_id then PROTOZOA
      else if prefix ''T4'' rule_id then RADIOLOGICAL
      else if prefix ''M'' rule_id then MONITORING
      else if prefix ''V'' rule_id then VERIFICATION
      else if prefix ''O'' rule_id then OPERATIONAL
      else WATER_QUALITY)
   \<and> parse_parameter rule_id =
     (if count_list rule_id (CHR ''-'') = 1
      then Some (lower (tl (dropWhile (\<lambda>c. c \<noteq> CHR ''-'') rule_id))) else None)
   \<and> (rule_id \<noteq> [] \<and> strip rule_id = rule_id \<longrightarrow>
        (\<exists>r. rules_of_column [StrV rule_id] = [r] \<and> ruleId r = rule_id
             \<and> category r = categorize rule_id \<and> parameter r = parse_parameter rule_id))
   \<and> map (\<lambda>r. (ruleId r, category r, parameter r))
         (rules_of_column [StrV ''T1.8-ecol'', StrV ''T3.2-Crypto'', StrV ''X9.1''])
      = [(''T1.8-ecol'', BACTERIOLOGICAL, Some ''ecol''),
         (''T3.2-Crypto'', PROTOZOA, Some ''crypto''),
         (''X9.1'', WATER_QUALITY, None)]"
proof -
  have emitted: "rule_id \<noteq> [] \<and> strip rule_id = rule_id \<longrightarrow>
        (\<exists>r. rules_of_column [StrV rule_id] = [r] \<and> ruleId r = rule_id
             \<and> category r = categorize rule_id \<and> parameter r = parse_parameter rule_id)"
    by (simp add: single_rule make_rule_def)
  show ?thesis
    using categorize_eq [of rule_id] parse_parameter_eq [of rule_id] emitted example_rules
    by (intro conjI)
qed

theorem C3_witness:
  "''T1.8-ecol'' \<noteq> [] \<and> strip ''T1.8-ecol'' = ''T1.8-ecol''
   \<and> categorize ''T1.8-ecol'' = BACTERIOLOGICAL
   \<and> parse_parameter ''T1.8-ecol'' = Some ''ecol''
   \<and> (\<exists>r. rules_of_column [StrV ''T1.8-ecol''] = [r] \<and> ruleId r = ''T1.8-ecol''
          \<and> category r = BACTERIOLOGICAL \<and> parameter r = Some ''ecol'')"
proof -
  have h: "''T1.8-ecol'' \<noteq> [] \<and> strip ''T1.8-ecol'' = ''T1.8-ecol''"
    by code_simp
  have l: "lower ''ecol'' = ''ecol''"
    by code_simp
  show ?thesis
    using h l C3_category_and_parameter [of "''T1.8-ecol''"] by auto
qed

subsection \<open>One record per identifier, in first-seen order\<close>

text \<open>
  A cell holding the number 0 has the trimmed text \<open>0\<close>, which is not blank, but it
  fails Python's truth test in the guard of the loop and yields no record.
\<close>

theorem C4_counterexample:
  "nonblank_texts [IntV 0] = [''0''] \<and> rules_of_column [IntV 0] = []"
  by code_simp

text \<open>
  Claim C4, amended. For every column of cell values, the output holds exactly one record
  per distinct identifier, the identifiers being the trimmed non-blank texts of the cells
  that pass Python's truth test; the records stand in the order in which their
  identifiers first occur; each record is the one built from its identifier; a cell that
  is falsy (empty, the number 0, False) or blank after trimming contributes nothing. When
  every cell is a text or empty, the identifiers are exactly the trimmed non-blank texts
  of the cells.
\<close>

theorem C4_first_seen_records:
  "distinct (map ruleId (rules_of_column col))
   \<and> set (map ruleId (rules_of_column col)) = set (identifiers col)
   \<and> sorted_wrt (\<lambda>a b. first_index (identifiers col) a < first_index (identifiers col) b)
        (map ruleId (rules_of_column col))
   \<and> (\<forall>r\<in>set (rules_of_column col). r = make_rule (ruleId r))
   \<and> (\<not> truthy v \<or> strip (py_str v) = [] \<longrightarrow>
        rules_of_column (xs @ v # ys) = rules_of_column (xs @ ys))
   \<and> ((\<forall>v\<in>set col. v = NoneV \<or> (\<exists>s. v = StrV s)) \<longrightarrow> identifiers col = nonblank_texts col)"
proof -
  have ids: "map ruleId (rules_of_column col) = rev (remdups (rev (identifiers col)))"
    by (rule ruleIds_of_column)
  have a: "distinct (map ruleId (rules_of_column col))"
    unfolding ids by simp
  have b: "set (map ruleId (rules_of_column col)) = set (identifiers col)"
    unfolding ids by simp
  have c: "sorted_wrt (\<lambda>a b. first_index (identifiers col) a < first_index (identifiers col) b)
        (map ruleId (rules_of_column col))"
    unfolding ids by (rule first_seen_sorted)
  have d: "\<forall>r\<in>set (rules_of_column col). r = make_rule (ruleId r)"
    by (auto simp add: rules_of_column_eq ruleId_make_rule)
  have e: "\<not> truthy v \<or> strip (py_str v) = [] \<longrightarrow>
        rules_of_column (xs @ v # ys) = rules_of_column (xs @ ys)"
    by (simp only: rules_of_column_eq) (metis identifiers_drop_blank)
  have f: "(\<forall>v\<in>set col. v = NoneV \<or> (\<exists>s. v = StrV s)) \<longrightarrow> identifiers col = nonblank_texts col"
    using identifiers_text_cells by blast
  from a b c d e f show ?thesis by (intro conjI)
qed


theorem C4_witness:
  "\<not> truthy NoneV
   \<and> rules_of_column ([StrV ''M1''] @ NoneV # [StrV ''V2'']) = rules_of_column ([StrV ''M1''] @ [StrV ''V2''])
   \<and> identifiers [StrV ''T2.1-pH'', NoneV, StrV '' T1.8-ecol '', StrV ''T2.1-pH'', StrV ''  '']
       = nonblank_texts [StrV ''T2.1-pH'', NoneV, StrV '' T1.8-ecol '', StrV ''T2.1-pH'', StrV ''  '']
   \<and> map ruleId (rules_of_column
         [StrV ''T2.1-pH'', NoneV, StrV '' T1.8-ecol '', StrV ''T2.1-pH'', StrV ''  ''])
       = [''T2.1-pH'', ''T1.8-ecol'']
   \<and> distinct (map ruleId (rules_of_column
         [StrV ''T2.1-pH'', NoneV, StrV '' T1.8-ecol '', StrV ''T2.1-pH'', StrV ''  '']))"
proof -
  have h: "\<forall>v\<in>set [StrV ''T2.1-pH'', NoneV, StrV '' T1.8-ecol '', StrV ''T2.1-pH'', StrV ''  ''].
             v = NoneV \<or> (\<exists>s. v = StrV s)"
    by simp
  have ev: "map ruleId (rules_of_column
         [StrV ''T2.1-pH'', NoneV, StrV '' T1.8-ecol '', StrV ''T2.1-pH'', StrV ''  ''])
       = [''T2.1-pH'', ''T1.8-ecol'']"
    by code_simp
  show ?thesis
    using h ev
      C4_first_seen_records [of "[StrV ''T2.1-pH'', NoneV, StrV '' T1.8-ecol '', StrV ''T2.1-pH'', StrV ''  '']"
        NoneV "[StrV ''M1'']" "[StrV ''V2'']"]
    by simp
qed

subsection \<open>Deduplication by exact match\<close>

lemma triple_rule:
  "i \<noteq> [] \<Longrightarrow> strip i = i \<Longrightarrow> rules_of_column [StrV i, StrV i, StrV i] = [make_rule i]"
  by (simp add: rules_of_column_eq identifiers_def)

lemma pair_rules:
  "truthy a \<and> strip (py_str a) \<noteq> [] \<Longrightarrow> truthy b \<and> strip (py_str b) \<noteq> [] \<Longrightarrow>
     length (rules_of_column [a, b]) = (if strip (py_str a) = strip (py_str b) then 1 else 2)"
  by (simp add: rules_of_column_eq identifiers_def)

lemma records_for_identifier:
  "length (filter (\<lambda>r. ruleId r = i) (rules_of_column col)) =
     (if i \<in> set (identifiers col) then 1 else 0)"
proof -
  have d: "distinct (map ruleId (rules_of_column col))"
    by (simp add: ruleIds_of_column)
  have s: "ruleId ` set (rules_of_column col) = set (identifiers col)"
    using ruleIds_of_column [of col] by (metis set_map set_remdups set_rev)
  from count_of_key [OF d, of i] s show ?thesis by simp
qed

text \<open>
  Claim C5. A column in which the same identifier occurs three times yields exactly one
  record for it (in general: one record for an identifier that occurs, none for one that
  does not); three cells holding the same trimmed identifier yield the single record of
  that identifier; two cells yield one record when their trimmed texts are the same string
  and two otherwise; and the output is a function of the column alone, so that a second
  run on the same column returns the same list.
\<close>

theorem C5_one_record_per_identifier:
  "(count_list (identifiers col) i = 3 \<longrightarrow>
      length (filter (\<lambda>r. ruleId r = i) (rules_of_column col)) = 1)
   \<and> length (filter (\<lambda>r. ruleId r = i) (rules_of_column col)) =
       (if i \<in> set (identifiers col) then 1 else 0)
   \<and> (i \<noteq> [] \<and> strip i = i \<longrightarrow> rules_of_column [StrV i, StrV i, StrV i] = [make_rule i])
   \<and> (truthy a \<and> strip (py_str a) \<noteq> [] \<and> truthy b \<and> strip (py_str b) \<noteq> [] \<longrightarrow>
        length (rules_of_column [a, b]) = (if strip (py_str a) = strip (py_str b) then 1 else 2))
   \<and> (col' = col \<longrightarrow> rules_of_column col' = rules_of_column col)"
proof -
  have three: "count_list (identifiers col) i = 3 \<longrightarrow>
      length (filter (\<lambda>r. ruleId r = i) (rules_of_column col)) = 1"
  proof
    assume "count_list (identifiers col) i = 3"
    then have "i \<in> set (identifiers col)"
      using count_list_0_iff [of "identifiers col" i] by simp
    then show "length (filter (\<lambda>r. ruleId r = i) (rules_of_column col)) = 1"
      by (simp add: records_for_identifier)
  qed
  show ?thesis
    using three records_for_identifier [of i col] triple_rule [of i] pair_rules [of a b]
    by simp
qed

theorem C5_witness:
  "count_list (identifiers [StrV ''T1.8-ecol'', StrV ''M2'', StrV '' T1.8-ecol'', StrV ''T1.8-ecol  ''])
      ''T1.8-ecol'' = 3
   \<and> length (filter (\<lambda>r. ruleId r = ''T1.8-ecol'')
        (rules_of_column [StrV ''T1.8-ecol'', StrV ''M2'', StrV '' T1.8-ecol'', StrV ''T1.8-ecol  ''])) = 1
   \<and> rules_of_column [StrV ''M2'', StrV ''M2'', StrV ''M2''] = [make_rule ''M2'']
   \<and> length (rules_of_column [StrV ''t1'', StrV ''T1'']) = 2"
proof -
  have h1: "count_list (identifiers [StrV ''T1.8-ecol'', StrV ''M2'', StrV '' T1.8-ecol'', StrV ''T1.8-ecol  ''])
      ''T1.8-ecol'' = 3"
    by code_simp
  have h2: "''M2'' \<noteq> [] \<and> strip ''M2'' = ''M2''"
    by code_simp
  have h3: "truthy (StrV ''t1'') \<and> strip (py_str (StrV ''t1'')) \<noteq> []
            \<and> truthy (StrV ''T1'') \<and> strip (py_str (StrV ''T1'')) \<noteq> []"
    by code_simp
  have h4: "strip (py_str (StrV ''t1'')) \<noteq> strip (py_str (StrV ''T1''))"
    by code_simp
  have a: "length (filter (\<lambda>r. ruleId r = ''T1.8-ecol'')
        (rules_of_column [StrV ''T1.8-ecol'', StrV ''M2'', StrV '' T1.8-ecol'', StrV ''T1.8-ecol  ''])) = 1"
    using h1 C5_one_record_per_identifier
      [of "[StrV ''T1.8-ecol'', StrV ''M2'', StrV '' T1.8-ecol'', StrV ''T1.8-ecol  '']" "''T1.8-ecol''"]
    by blast
  have b: "rules_of_column [StrV ''M2'', StrV ''M2'', StrV ''M2''] = [make_rule ''M2'']"
    using h2 C5_one_record_per_identifier [of _ "''M2''"] by blast
  have c: "length (rules_of_column [StrV ''t1'', StrV ''T1'']) = 2"
    using h3 h4 C5_one_record_per_identifier [of _ _ "StrV ''t1''" "StrV ''T1''"] by simp
  from h1 a b c show ?thesis by (intro conjI)
qed


section \<open>Sheet-Header Locator: the scan of the first rows\<close>

lemma qualifies_code:
  "qualifies sh r =
     (length (non_empty (row_values sh r)) > 3 \<and> has_keyword (non_empty (row_values sh r)))"
  by (simp add: qualifies_def non_empty_def has_keyword_def header_keywords_def
      domain_keywords_def py_in_sublist)

lemma scan_row_skip: "\<not> qualifies sh r \<Longrightarrow> scan_row sh st r = st"
  by (auto simp add: qualifies_code scan_row_def Let_def)

lemma scan_row_kept: "\<not> not_set (snd st) \<Longrightarrow> scan_row sh st r = st"
  by (simp add: scan_row_def Let_def)

lemma scan_row_accept:
  "qualifies sh r \<Longrightarrow> scan_row sh ([], None) r = (row_values sh r, Some (r + 1))"
  by (simp add: qualifies_code scan_row_def Let_def not_set_def)

lemma scan_fold_skip:
  "\<forall>r\<in>set rs. \<not> qualifies sh r \<Longrightarrow> foldl (scan_row sh) st rs = st"
  by (induction rs arbitrary: st) (simp_all add: scan_row_skip)

lemma scan_fold_kept: "\<not> not_set (snd st) \<Longrightarrow> foldl (scan_row sh) st rs = st"
  by (induction rs arbitrary: st) (simp_all add: scan_row_kept)

lemma set_scan_rows: "set (scan_rows sh) = {r. 1 \<le> r \<and> r \<le> 20 \<and> r \<le> max_row sh}"
  by (auto simp add: scan_rows_def)

lemma scan_rows_split:
  assumes "r \<in> set (scan_rows sh)"
  shows "scan_rows sh = [1..<r] @ r # [Suc r..<min 21 (max_row sh + 1)]"
proof -
  define n where "n = min 21 (max_row sh + 1)"
  from assms have b: "1 \<le> r" "r < n"
    by (auto simp add: scan_rows_def n_def)
  then have "[1..<n] = [1..<r] @ [r..<n]"
    by (metis le_eq_less_or_eq upt_add_eq_append le_Suc_ex)
  also have "[r..<n] = r # [Suc r..<n]"
    using b(2) by (rule upt_conv_Cons)
  finally show ?thesis by (simp only: scan_rows_def n_def)
qed

lemma scan_headers_first:
  assumes r: "r \<in> set (scan_rows sh)" and q: "qualifies sh r"
    and first: "\<forall>r'\<in>set (scan_rows sh). r' < r \<longrightarrow> \<not> qualifies sh r'"
  shows "scan_headers sh = (row_values sh r, Some (r + 1))"
proof -
  let ?rest = "[Suc r..<min 21 (max_row sh + 1)]"
  have split: "scan_rows sh = [1..<r] @ r # ?rest"
    using r by (rule scan_rows_split)
  have "\<forall>r'\<in>set [1..<r]. \<not> qualifies sh r'"
  proof
    fix r' assume a: "r' \<in> set [1..<r]"
    then have "r' \<in> set (scan_rows sh)" by (simp add: split)
    moreover from a have "r' < r" by simp
    ultimately show "\<not> qualifies sh r'" using first by blast
  qed
  then have before: "foldl (scan_row sh) ([], None) [1..<r] = ([], None)"
    by (rule scan_fold_skip)
  have after: "foldl (scan_row sh) (row_values sh r, Some (r + 1)) ?rest
                 = (row_values sh r, Some (r + 1))"
    by (rule scan_fold_kept) (simp add: not_set_def)
  show ?thesis
    unfolding scan_headers_def split
    by (simp only: foldl_append foldl_Cons before scan_row_accept [OF q] after)
qed

lemma scan_headers_none:
  "\<forall>r\<in>set (scan_rows sh). \<not> qualifies sh r \<Longrightarrow> scan_headers sh = ([], None)"
  unfolding scan_headers_def by (rule scan_fold_skip)

lemma few_cells_not_qualifying:
  "length (non_empty (row_values sh r)) \<le> 3 \<Longrightarrow> \<not> qualifies sh r"
  by (simp add: qualifies_code)

text \<open>
  Claim C2. The rows scanned are rows 1 to 20, or to \<open>max_row\<close> if that is less. The
  row accepted as the header is the qualifying row of lowest index among them: the scan
  ends with that row's values as \<open>headers\<close> and its index plus one as
  \<open>data_start_row\<close>. If no scanned row qualifies, nothing is accepted. A row with 3
  or fewer non-blank cells does not qualify; a row that does not qualify leaves the state
  of the scan as it was, whatever that state is, so it is never used as a fallback; and
  once \<open>data_start_row\<close> is set, every later row leaves the state as it was.
\<close>

theorem C2_lowest_qualifying_row:
  "set (scan_rows sh) = {r. 1 \<le> r \<and> r \<le> 20 \<and> r \<le> max_row sh}
   \<and> (r \<in> set (scan_rows sh) \<and> qualifies sh r
        \<and> (\<forall>r'\<in>set (scan_rows sh). r' < r \<longrightarrow> \<not> qualifies sh r')
      \<longrightarrow> scan_headers sh = (row_values sh r, Some (r + 1)))
   \<and> ((\<forall>r'\<in>set (scan_rows sh). \<not> qualifies sh r') \<longrightarrow> scan_headers sh = ([], None))
   \<and> (length (non_empty (row_values sh r)) \<le> 3 \<longrightarrow> \<not> qualifies sh r)
   \<and> (\<not> qualifies sh r \<longrightarrow> scan_row sh st r = st)
   \<and> (\<not> not_set (snd st) \<longrightarrow> scan_row sh st r = st)
   \<and> \<not> not_set (Some (r + 1))"
  using set_scan_rows [of sh] scan_headers_first [of r sh] scan_headers_none [of sh]
    few_cells_not_qualifying [of sh r] scan_row_skip [of sh r st] scan_row_kept [of st sh r]
  by (simp add: not_set_def)


theorem C2_witness:
  "2 \<in> set (scan_rows regression_sheet)
   \<and> 3 < length (non_empty (row_values regression_sheet 1))
   \<and> \<not> qualifies regression_sheet 1
   \<and> qualifies regression_sheet 2
   \<and> qualifies regression_sheet 3
   \<and> scan_headers regression_sheet = ([''Water Supply Name'', ''x'', ''y'', ''z'', []], Some 3)"
proof -
  have rows: "scan_rows regression_sheet = [1, 2, 3]"
    by code_simp
  have q: "3 < length (non_empty (row_values regression_sheet 1))
           \<and> \<not> qualifies regression_sheet 1 \<and> qualifies regression_sheet 2
           \<and> qualifies regression_sheet 3"
    by code_simp
  have v: "row_values regression_sheet 2 = [''Water Supply Name'', ''x'', ''y'', ''z'', []]"
    by code_simp
  have r: "2 \<in> set (scan_rows regression_sheet)"
    using rows by simp
  have first: "\<forall>r'\<in>set (scan_rows regression_sheet). r' < 2 \<longrightarrow> \<not> qualifies regression_sheet r'"
    using rows q by simp
  have "scan_headers regression_sheet = (row_values regression_sheet 2, Some (2 + 1))"
    using C2_lowest_qualifying_row [of regression_sheet 2, THEN conjunct2, THEN conjunct1] r q first
    by blast
  with r q v show ?thesis by simp
qed

text \<open>
  Claim C1 says that the result record reports the index of the accepted row as the header
  row and that index plus one as the data-start row, 2 and 3 for the sheet of the
  end-to-end scenario. On that sheet the code accepts row 2 and reports 3 as the
  data-start row, but it reports 1 as the header row: the field is the constant 1
  whenever a header was found.
\<close>

theorem C1_header_row_reported_as_1:
  "fst (scan_headers example_sheet) = [''Water'', ''Supply'', ''Name'', ''Code'', ''Date'']
   \<and> data_start_row (analyze_sheet ''Sheet1'' example_sheet) = Some 3
   \<and> header_row (analyze_sheet ''Sheet1'' example_sheet) = Some 1"
  by code_simp


section \<open>Sheet-Header Locator: the column mapping\<close>

lemma headers_of_analysis:
  "scan_headers sh = (hdrs, dsr) \<Longrightarrow> hdrs \<noteq> [] \<Longrightarrow>
     headers (analyze_sheet name sh) = header_details_of hdrs"
  by (simp add: analyze_sheet_def)

lemma length_enumerate1: "length (enumerate1 xs) = length xs"
  by (simp add: enumerate1_def del: upt_Suc)

lemma nth_enumerate1: "i < length xs \<Longrightarrow> enumerate1 xs ! i = (i + 1, xs ! i)"
  by (simp add: enumerate1_def del: upt_Suc)

lemma length_header_details:
  "length (header_details_of hdrs) = min 30 (length (clean_headers hdrs))"
  by (simp add: header_details_of_def length_enumerate1 min.commute)

lemma nth_header_details:
  assumes "i < length (header_details_of hdrs)"
  shows "header_details_of hdrs ! i =
           \<lparr> column_index = i + 1,
             header_name = clean_headers hdrs ! i,
             database_mapping = ''TO_BE_MAPPED_'' @ str_nat (i + 1),
             required = ''UNKNOWN'',
             data_type = ''UNKNOWN'' \<rparr>"
proof -
  let ?xs = "take 30 (clean_headers hdrs)"
  from assms have i: "i < length ?xs"
    by (simp add: length_header_details)
  then have "enumerate1 ?xs ! i = (i + 1, ?xs ! i)"
    by (rule nth_enumerate1)
  moreover from i have "?xs ! i = clean_headers hdrs ! i"
    by simp
  ultimately show ?thesis
    using i by (simp add: header_details_of_def length_enumerate1 header_entry_def)
qed

lemma header_names_all:
  assumes "length (clean_headers hdrs) \<le> 30"
  shows "map header_name (header_details_of hdrs) = clean_headers hdrs"
proof (rule nth_equalityI)
  show "length (map header_name (header_details_of hdrs)) = length (clean_headers hdrs)"
    using assms by (simp add: length_header_details)
next
  fix i assume "i < length (map header_name (header_details_of hdrs))"
  then have "i < length (header_details_of hdrs)" by simp
  then show "map header_name (header_details_of hdrs) ! i = clean_headers hdrs ! i"
    by (simp add: nth_header_details)
qed

lemma qualifying_row_not_empty: "qualifies sh r \<Longrightarrow> row_values sh r \<noteq> []"
  by (auto simp add: qualifies_def)

text \<open>
  A header row with 31 non-blank cells is accepted, and its column mapping has 30
  entries.
\<close>

theorem C9_counterexample:
  "qualifies (sheet_of_rows [wide_header_row]) 1
   \<and> length (clean_headers (row_values (sheet_of_rows [wide_header_row]) 1)) = 31
   \<and> length (headers (analyze_sheet ''Sheet1'' (sheet_of_rows [wide_header_row]))) = 30"
  by code_simp

text \<open>
  Claim C9, amended. For every sheet with an accepted header row, the column mapping has
  one entry for each of the first 30 detected (non-blank, trimmed) header cells, in their
  order: the entry at position \<open>i\<close> carries the ordinal \<open>i + 1\<close>, the trimmed text of
  that cell, the placeholder \<open>TO_BE_MAPPED_\<close> followed by the ordinal, and
  \<open>UNKNOWN\<close> for the required flag and the data type. With at most 30 detected header
  cells there is one entry per cell.
\<close>

theorem C9_first_thirty_header_cells:
  assumes "r \<in> set (scan_rows sh)" and "qualifies sh r"
    and "\<forall>r'\<in>set (scan_rows sh). r' < r \<longrightarrow> \<not> qualifies sh r'"
  shows "length (headers (analyze_sheet name sh)) = min 30 (length (clean_headers (row_values sh r)))
   \<and> (\<forall>i<length (headers (analyze_sheet name sh)).
        headers (analyze_sheet name sh) ! i =
          \<lparr> column_index = i + 1,
            header_name = clean_headers (row_values sh r) ! i,
            database_mapping = ''TO_BE_MAPPED_'' @ str_nat (i + 1),
            required = ''UNKNOWN'',
            data_type = ''UNKNOWN'' \<rparr>)
   \<and> (length (clean_headers (row_values sh r)) \<le> 30 \<longrightarrow>
        map header_name (headers (analyze_sheet name sh)) = clean_headers (row_values sh r))"
proof -
  have "scan_headers sh = (row_values sh r, Some (r + 1))"
    using assms by (rule scan_headers_first)
  moreover have "row_values sh r \<noteq> []"
    using assms(2) by (rule qualifying_row_not_empty)
  ultimately have h: "headers (analyze_sheet name sh) = header_details_of (row_values sh r)"
    by (rule headers_of_analysis)
  show ?thesis
    unfolding h
    by (simp add: length_header_details nth_header_details header_names_all)
qed

theorem C9_witness:
  "2 \<in> set (scan_rows example_sheet) \<and> qualifies example_sheet 2 \<and> \<not> qualifies example_sheet 1
   \<and> length (headers (analyze_sheet ''Sheet1'' example_sheet)) = 5
   \<and> map header_name (headers (analyze_sheet ''Sheet1'' example_sheet))
       = [''Water'', ''Supply'', ''Name'', ''Code'', ''Date'']
   \<and> headers (analyze_sheet ''Sheet1'' example_sheet) ! 4 =
        \<lparr> column_index = 5, header_name = ''Date'', database_mapping = ''TO_BE_MAPPED_5'',
          required = ''UNKNOWN'', data_type = ''UNKNOWN'' \<rparr>"
proof -
  have rows: "scan_rows example_sheet = [1, 2, 3]"
    by code_simp
  have q: "qualifies example_sheet 2 \<and> \<not> qualifies example_sheet 1"
    by code_simp
  have c: "clean_headers (row_values example_sheet 2) = [''Water'', ''Supply'', ''Name'', ''Code'', ''Date'']"
    by code_simp
  have n: "str_nat 5 = ''5''"
    by code_simp
  have first: "\<forall>r'\<in>set (scan_rows example_sheet). r' < 2 \<longrightarrow> \<not> qualifies example_sheet r'"
    using rows q by simp
  have r: "2 \<in> set (scan_rows example_sheet)"
    using rows by simp
  from C9_first_thirty_header_cells [OF r _ first, of "''Sheet1''"] q c n rows show ?thesis
    by simp
qed


section \<open>Keyword-Bucket Scanner: what the loop collects\<close>

lemma scan_line_entries:
  "scan_line [(''high_risk_areas'', a), (''enforcement_focus'', b), (''supply_categories'', c),
              (''key_metrics'', d), (''risk_factors'', e)] line
   = [(''high_risk_areas'',
         a @ (if bucket_line [''high risk'', ''critical'', ''priority''] 20 200 line
              then [strip line] else [])),
      (''enforcement_focus'', b),
      (''supply_categories'',
         c @ (if bucket_line [''category'', ''tier'', ''supplier''] 15 150 line
              then [strip line] else [])),
      (''key_metrics'', d),
      (''risk_factors'',
         e @ (if bucket_line [''risk factor'', ''risk level''] 15 150 line
              then [strip line] else []))]"
  by (simp add: scan_line_def dict_append_def any_keyword_def bucket_line_def py_in_sublist Let_def)

lemma scan_fold_entries:
  "foldl scan_line [(''high_risk_areas'', a), (''enforcement_focus'', b), (''supply_categories'', c),
              (''key_metrics'', d), (''risk_factors'', e)] ls
   = [(''high_risk_areas'',
         a @ map strip (filter (bucket_line [''high risk'', ''critical'', ''priority''] 20 200) ls)),
      (''enforcement_focus'', b),
      (''supply_categories'',
         c @ map strip (filter (bucket_line [''category'', ''tier'', ''supplier''] 15 150) ls)),
      (''key_metrics'', d),
      (''risk_factors'',
         e @ map strip (filter (bucket_line [''risk factor'', ''risk level''] 15 150) ls))]"
proof (induction ls arbitrary: a c e)
  case Nil
  then show ?case by simp
next
  case (Cons l ls)
  show ?case
    by (simp only: foldl_Cons scan_line_entries Cons.IH) simp
qed

lemma collected_eq:
  "collected text
   = [(''high_risk_areas'',
         map strip (filter (bucket_line [''high risk'', ''critical'', ''priority''] 20 200)
                      (py_split text (CHR 0x0A)))),
      (''enforcement_focus'', []),
      (''supply_categories'',
         map strip (filter (bucket_line [''category'', ''tier'', ''supplier''] 15 150)
                      (py_split text (CHR 0x0A)))),
      (''key_metrics'', []),
      (''risk_factors'',
         map strip (filter (bucket_line [''risk factor'', ''risk level''] 15 150)
                      (py_split text (CHR 0x0A))))]"
  unfolding collected_def initial_priorities_def
  by (simp only: scan_fold_entries append_Nil)

lemma single_line: "CHR 0x0A \<notin> set line \<Longrightarrow> py_split line (CHR 0x0A) = [line]"
  by (simp add: py_split_def split_from_none)

lemma boundary_lines:
  "length ''critical issue here!'' = 20 \<and> collected ''critical issue here!'' = initial_priorities
   \<and> length ''critical issue here!!'' = 21
   \<and> map_of (collected ''critical issue here!!'') ''high_risk_areas'' = Some [''critical issue here!!'']"
  by code_simp

text \<open>
  Claim C6. After the loop over the lines of a text, the bucket \<open>high_risk_areas\<close> holds,
  in order, the trimmed form of exactly those lines whose lower-cased form contains
  \<open>high risk\<close>, \<open>critical\<close> or \<open>priority\<close> and whose trimmed length is strictly
  greater than 20 and strictly less than 200; \<open>supply_categories\<close> and
  \<open>risk_factors\<close> hold the lines matching their keywords with a trimmed length
  strictly between 15 and 150. For a text of a single line the bucket holds that line,
  trimmed, if and only if the line meets the two conditions. A line of exactly 20
  characters containing \<open>critical\<close> is left out and one of 21 characters is taken in.
\<close>

theorem C6_strict_length_bounds:
  "map_of (collected text) ''high_risk_areas'' =
     Some (map strip (filter (bucket_line [''high risk'', ''critical'', ''priority''] 20 200)
                        (py_split text (CHR 0x0A))))
   \<and> map_of (collected text) ''supply_categories'' =
     Some (map strip (filter (bucket_line [''category'', ''tier'', ''supplier''] 15 150)
                        (py_split text (CHR 0x0A))))
   \<and> map_of (collected text) ''risk_factors'' =
     Some (map strip (filter (bucket_line [''risk factor'', ''risk level''] 15 150)
                        (py_split text (CHR 0x0A))))
   \<and> (CHR 0x0A \<notin> set line \<longrightarrow>
        map_of (collected line) ''high_risk_areas'' =
          Some (if (sublist ''high risk'' (lower line) \<or> sublist ''critical'' (lower line)
                    \<or> sublist ''priority'' (lower line))
                   \<and> 20 < length (strip line) \<and> length (strip line) < 200
                then [strip line] else []))
   \<and> length ''critical issue here!'' = 20
   \<and> map_of (collected ''critical issue here!'') ''high_risk_areas'' = Some []
   \<and> length ''critical issue here!!'' = 21
   \<and> map_of (collected ''critical issue here!!'') ''high_risk_areas'' = Some [''critical issue here!!'']"
proof -
  have hr: "map_of (collected text) ''high_risk_areas'' =
     Some (map strip (filter (bucket_line [''high risk'', ''critical'', ''priority''] 20 200)
                        (py_split text (CHR 0x0A))))"
    by (simp add: collected_eq)
  have sc: "map_of (collected text) ''supply_categories'' =
     Some (map strip (filter (bucket_line [''category'', ''tier'', ''supplier''] 15 150)
                        (py_split text (CHR 0x0A))))"
    by (simp add: collected_eq)
  have rf: "map_of (collected text) ''risk_factors'' =
     Some (map strip (filter (bucket_line [''risk factor'', ''risk level''] 15 150)
                        (py_split text (CHR 0x0A))))"
    by (simp add: collected_eq)
  have one: "CHR 0x0A \<notin> set line \<longrightarrow>
        map_of (collected line) ''high_risk_areas'' =
          Some (if (sublist ''high risk'' (lower line) \<or> sublist ''critical'' (lower line)
                    \<or> sublist ''priority'' (lower line))
                   \<and> 20 < length (strip line) \<and> length (strip line) < 200
                then [strip line] else [])"
    by (simp add: collected_eq single_line bucket_line_def)
  have ex: "map_of (collected ''critical issue here!'') ''high_risk_areas'' = Some []"
    by (simp add: boundary_lines initial_priorities_def)
  from hr sc rf one ex boundary_lines show ?thesis
    by (intro conjI) simp_all
qed

theorem C6_witness:
  "(\<exists>k\<in>set [''high risk'', ''critical'', ''priority'']. sublist k (lower ''critical issue here!''))
   \<and> CHR 0x0A \<notin> set ''critical issue here!''
   \<and> length (strip ''critical issue here!'') = 20
   \<and> map_of (collected ''critical issue here!'') ''high_risk_areas'' = Some []
   \<and> CHR 0x0A \<notin> set ''  a Critical issue here  ''
   \<and> length (strip ''  a Critical issue here  '') = 21
   \<and> map_of (collected ''  a Critical issue here  '') ''high_risk_areas''
       = Some [''a Critical issue here'']"
proof -
  have k: "\<exists>k\<in>set [''high risk'', ''critical'', ''priority'']. sublist k (lower ''critical issue here!'')"
    by code_simp
  have n1: "CHR 0x0A \<notin> set ''critical issue here!'' \<and> length (strip ''critical issue here!'') = 20"
    by code_simp
  have n2: "CHR 0x0A \<notin> set ''  a Critical issue here  ''
            \<and> length (strip ''  a Critical issue here  '') = 21
            \<and> strip ''  a Critical issue here  '' = ''a Critical issue here''
            \<and> sublist ''critical'' (lower ''  a Critical issue here  '')"
    by code_simp
  have a: "map_of (collected ''critical issue here!'') ''high_risk_areas'' = Some []"
    using n1 C6_strict_length_bounds [of "''critical issue here!''" "''critical issue here!''",
        THEN conjunct2, THEN conjunct2, THEN conjunct2, THEN conjunct1]
    by simp
  have b: "map_of (collected ''  a Critical issue here  '') ''high_risk_areas''
       = Some [''a Critical issue here'']"
    using n2 C6_strict_length_bounds [of "''  a Critical issue here  ''" "''  a Critical issue here  ''",
        THEN conjunct2, THEN conjunct2, THEN conjunct2, THEN conjunct1]
    by simp
  from k n1 n2 a b show ?thesis by (intro conjI) simp_all
qed


section \<open>Keyword-Bucket Scanner: deduplication and the cap\<close>

lemma listing_forward_ok: "set_listing listing_forward"
  by (simp add: set_listing_def listing_forward_def)

lemma listing_backward_ok: "set_listing listing_backward"
  by (simp add: set_listing_def listing_backward_def)

lemma listing_empty: "set_listing f \<Longrightarrow> f [] = []"
  by (metis set_listing_def set_empty)

lemma map_of_extract:
  "map_of (extract_priorities f text) key =
     map_option (\<lambda>vs. take 10 (f vs)) (map_of (collected text) key)"
  by (simp add: extract_priorities_def map_of_map)

lemma capped_listing:
  assumes "set_listing f"
  shows "length (take 10 (f xs)) = min 10 (card (set xs))"
    and "distinct (take 10 (f xs))"
    and "set (take 10 (f xs)) \<subseteq> set xs"
    and "card (set xs) \<le> 10 \<Longrightarrow> set (take 10 (f xs)) = set xs"
proof -
  from assms have d: "distinct (f xs)" and s: "set (f xs) = set xs"
    by (simp_all add: set_listing_def)
  from d have len: "length (f xs) = card (set xs)"
    using distinct_card [of "f xs"] s by simp
  show "length (take 10 (f xs)) = min 10 (card (set xs))"
    by (simp add: len min.commute)
  show "distinct (take 10 (f xs))"
    using d by simp
  show "set (take 10 (f xs)) \<subseteq> set xs"
    using set_take_subset [of 10 "f xs"] s by simp
  show "set (take 10 (f xs)) = set xs" if "card (set xs) \<le> 10"
    using that len s by simp
qed

lemma keys_of_extract:
  "map fst (extract_priorities f text) =
     [''high_risk_areas'', ''enforcement_focus'', ''supply_categories'', ''key_metrics'',
      ''risk_factors'']"
  by (simp add: extract_priorities_def collected_eq)

lemma bucket_of_entry:
  assumes "(key, vs) \<in> set (extract_priorities f text)"
  shows "\<exists>xs. vs = take 10 (f xs)"
  using assms by (auto simp add: extract_priorities_def)

lemma fifteen_collected:
  "map_of (collected fifteen_text) ''high_risk_areas''
     = Some (fifteen_lines @ [''critical finding number 03''])
   \<and> card (set (fifteen_lines @ [''critical finding number 03''])) = 15"
  by code_simp

text \<open>
  Claim C7. Whatever the listing of the set, every bucket of the result has at most 10
  entries, all distinct; a bucket has as many entries as the loop collected distinct
  trimmed lines for it, but no more than 10, and each entry is one of those lines. With
  exactly 15 distinct matching lines the bucket has exactly 10 entries.
\<close>

theorem C7_buckets_capped_and_distinct:
  assumes "set_listing list_set"
  shows "(\<forall>(key, vs)\<in>set (extract_priorities list_set text). length vs \<le> 10 \<and> distinct vs)
   \<and> (map_of (collected text) key = Some xs \<longrightarrow>
        (\<exists>vs. map_of (extract_priorities list_set text) key = Some vs
              \<and> length vs = min 10 (card (set xs)) \<and> distinct vs \<and> set vs \<subseteq> set xs))
   \<and> (map_of (collected text) key = Some xs \<and> card (set xs) = 15 \<longrightarrow>
        (\<exists>vs. map_of (extract_priorities list_set text) key = Some vs \<and> length vs = 10))"
proof -
  have a: "\<forall>(key, vs)\<in>set (extract_priorities list_set text). length vs \<le> 10 \<and> distinct vs"
  proof (clarify, rule conjI)
    fix key vs assume "(key, vs) \<in> set (extract_priorities list_set text)"
    then obtain xs where vs: "vs = take 10 (list_set xs)"
      using bucket_of_entry by blast
    show "length vs \<le> 10" by (simp add: vs)
    show "distinct vs" unfolding vs using assms by (rule capped_listing(2))
  qed
  have b: "map_of (collected text) key = Some xs \<longrightarrow>
        (\<exists>vs. map_of (extract_priorities list_set text) key = Some vs
              \<and> length vs = min 10 (card (set xs)) \<and> distinct vs \<and> set vs \<subseteq> set xs)"
    using capped_listing(1-3) [OF assms, of xs] by (simp add: map_of_extract)
  have c: "map_of (collected text) key = Some xs \<and> card (set xs) = 15 \<longrightarrow>
        (\<exists>vs. map_of (extract_priorities list_set text) key = Some vs \<and> length vs = 10)"
    using capped_listing(1) [OF assms, of xs] by (simp add: map_of_extract)
  from a b c show ?thesis by (intro conjI)
qed

theorem C7_witness:
  "set_listing listing_forward
   \<and> map_of (collected fifteen_text) ''high_risk_areas''
       = Some (fifteen_lines @ [''critical finding number 03''])
   \<and> card (set (fifteen_lines @ [''critical finding number 03''])) = 15
   \<and> (\<exists>vs. map_of (extract_priorities listing_forward fifteen_text) ''high_risk_areas'' = Some vs
          \<and> length vs = 10 \<and> distinct vs)"
proof -
  have "\<exists>vs. map_of (extract_priorities listing_forward fifteen_text) ''high_risk_areas'' = Some vs
          \<and> length vs = min 10 (card (set (fifteen_lines @ [''critical finding number 03''])))
          \<and> distinct vs \<and> set vs \<subseteq> set (fifteen_lines @ [''critical finding number 03''])"
    using C7_buckets_capped_and_distinct [OF listing_forward_ok, of fifteen_text
        "''high_risk_areas''" "fifteen_lines @ [''critical finding number 03'']",
        THEN conjunct2, THEN conjunct1] fifteen_collected
    by blast
  then show ?thesis
    using listing_forward_ok fifteen_collected by auto
qed

text \<open>
  Claim C10. For every text, the empty one included, the result has exactly the five keys
  \<open>high_risk_areas\<close>, \<open>enforcement_focus\<close>, \<open>supply_categories\<close>,
  \<open>key_metrics\<close> and \<open>risk_factors\<close>, and the buckets \<open>enforcement_focus\<close> and
  \<open>key_metrics\<close> are empty.
\<close>

theorem C10_five_keys_two_always_empty:
  assumes "set_listing list_set"
  shows "map fst (extract_priorities list_set text) =
     [''high_risk_areas'', ''enforcement_focus'', ''supply_categories'', ''key_metrics'',
      ''risk_factors'']
   \<and> map_of (extract_priorities list_set text) ''enforcement_focus'' = Some []
   \<and> map_of (extract_priorities list_set text) ''key_metrics'' = Some []"
proof -
  have e: "list_set [] = []"
    using assms by (rule listing_empty)
  have ef: "map_of (collected text) ''enforcement_focus'' = Some []"
    by (simp add: collected_eq)
  have km: "map_of (collected text) ''key_metrics'' = Some []"
    by (simp add: collected_eq)
  show ?thesis
    by (simp only: keys_of_extract map_of_extract ef km) (simp add: e)
qed

theorem C10_witness:
  "set_listing listing_forward
   \<and> extract_priorities listing_forward [] =
       [(''high_risk_areas'', []), (''enforcement_focus'', []), (''supply_categories'', []),
        (''key_metrics'', []), (''risk_factors'', [])]
   \<and> map fst (extract_priorities listing_forward two_line_text) =
       [''high_risk_areas'', ''enforcement_focus'', ''supply_categories'', ''key_metrics'',
        ''risk_factors'']
   \<and> map_of (extract_priorities listing_forward two_line_text) ''enforcement_focus'' = Some []
   \<and> map_of (extract_priorities listing_forward two_line_text) ''key_metrics'' = Some []"
proof -
  have empty: "extract_priorities listing_forward [] =
       [(''high_risk_areas'', []), (''enforcement_focus'', []), (''supply_categories'', []),
        (''key_metrics'', []), (''risk_factors'', [])]"
    by code_simp
  show ?thesis
    using listing_forward_ok empty
      C10_five_keys_two_always_empty [OF listing_forward_ok, of two_line_text]
    by simp
qed


section \<open>Keyword-Bucket Scanner: two runs on the same text\<close>

lemma two_runs_differ:
  "extract_priorities listing_forward two_line_text \<noteq> extract_priorities listing_backward two_line_text"
  by code_simp

lemma two_runs_select:
  "map_option set (map_of (extract_priorities listing_forward fifteen_text) ''high_risk_areas'')
   \<noteq> map_option set (map_of (extract_priorities listing_backward fifteen_text) ''high_risk_areas'')"
  by code_simp

text \<open>
  With two admissible listings of the set, two runs on the same text of two matching
  lines return the same two lines in different orders, and two runs on the text with
  fifteen distinct matching lines keep different lines.
\<close>

theorem C8_counterexample:
  "set_listing listing_forward \<and> set_listing listing_backward
   \<and> extract_priorities listing_forward two_line_text
       \<noteq> extract_priorities listing_backward two_line_text
   \<and> map_option set (map_of (extract_priorities listing_forward fifteen_text) ''high_risk_areas'')
       \<noteq> map_option set (map_of (extract_priorities listing_backward fifteen_text) ''high_risk_areas'')"
  using listing_forward_ok listing_backward_ok two_runs_differ two_runs_select
  by (intro conjI)

text \<open>
  Claim C8, amended. For every text, two runs of the scanner, each with its own listing of
  the set, return the same keys; under each key the two buckets have the same number of
  entries, each bucket is free of duplicates and drawn from the lines the loop collected
  for that key, and when at most 10 distinct lines were collected the two buckets hold
  the same elements, possibly in a different order. Two runs with the same listing return
  identical results.
\<close>

theorem C8_runs_agree_up_to_listing:
  assumes "set_listing f" and "set_listing g"
  shows "map fst (extract_priorities f text) = map fst (extract_priorities g text)
   \<and> (map_of (collected text) key = Some xs \<longrightarrow>
        (\<exists>us vs. map_of (extract_priorities f text) key = Some us
                 \<and> map_of (extract_priorities g text) key = Some vs
                 \<and> length us = length vs \<and> distinct us \<and> distinct vs
                 \<and> set us \<subseteq> set xs \<and> set vs \<subseteq> set xs
                 \<and> (card (set xs) \<le> 10 \<longrightarrow> set us = set xs \<and> set vs = set xs)))
   \<and> (map_of (collected text) key = None \<longrightarrow>
        map_of (extract_priorities f text) key = None
        \<and> map_of (extract_priorities g text) key = None)
   \<and> (f = g \<longrightarrow> extract_priorities f text = extract_priorities g text)"
proof -
  have keys: "map fst (extract_priorities f text) = map fst (extract_priorities g text)"
    by (simp only: keys_of_extract)
  have buckets: "map_of (collected text) key = Some xs \<longrightarrow>
        (\<exists>us vs. map_of (extract_priorities f text) key = Some us
                 \<and> map_of (extract_priorities g text) key = Some vs
                 \<and> length us = length vs \<and> distinct us \<and> distinct vs
                 \<and> set us \<subseteq> set xs \<and> set vs \<subseteq> set xs
                 \<and> (card (set xs) \<le> 10 \<longrightarrow> set us = set xs \<and> set vs = set xs))"
    using capped_listing [OF assms(1), of xs] capped_listing [OF assms(2), of xs]
    by (simp add: map_of_extract)
  have none: "map_of (collected text) key = None \<longrightarrow>
        map_of (extract_priorities f text) key = None
        \<and> map_of (extract_priorities g text) key = None"
    by (simp add: map_of_extract)
  from keys buckets none show ?thesis by simp
qed

theorem C8_witness:
  "set_listing listing_forward \<and> set_listing listing_backward
   \<and> map_of (collected two_line_text) ''high_risk_areas''
       = Some [''critical issue in zone A'', ''critical issue in zone B'']
   \<and> map_of (extract_priorities listing_forward two_line_text) ''high_risk_areas''
       = Some [''critical issue in zone A'', ''critical issue in zone B'']
   \<and> map_of (extract_priorities listing_backward two_line_text) ''high_risk_areas''
       = Some [''critical issue in zone B'', ''critical issue in zone A'']
   \<and> (\<exists>us vs. map_of (extract_priorities listing_forward two_line_text) ''high_risk_areas'' = Some us
          \<and> map_of (extract_priorities listing_backward two_line_text) ''high_risk_areas'' = Some vs
          \<and> length us = length vs \<and> set us = set vs)"
proof -
  have c: "map_of (collected two_line_text) ''high_risk_areas''
       = Some [''critical issue in zone A'', ''critical issue in zone B'']"
    by code_simp
  have small: "card (set [''critical issue in zone A'', ''critical issue in zone B'']) \<le> 10"
    by code_simp
  have ev: "map_of (extract_priorities listing_forward two_line_text) ''high_risk_areas''
       = Some [''critical issue in zone A'', ''critical issue in zone B'']
     \<and> map_of (extract_priorities listing_backward two_line_text) ''high_risk_areas''
       = Some [''critical issue in zone B'', ''critical issue in zone A'']"
    by code_simp
  have "\<exists>us vs. map_of (extract_priorities listing_forward two_line_text) ''high_risk_areas'' = Some us
          \<and> map_of (extract_priorities listing_backward two_line_text) ''high_risk_areas'' = Some vs
          \<and> length us = length vs \<and> set us = set vs"
    using C8_runs_agree_up_to_listing [OF listing_forward_ok listing_backward_ok,
        of two_line_text "''high_risk_areas''"
           "[''critical issue in zone A'', ''critical issue in zone B'']",
        THEN conjunct2, THEN conjunct1] c small
    by blast
  with listing_forward_ok listing_backward_ok c ev show ?thesis
    by blast
qed

end
